theory Spec2Isabelle
  imports Complex_Main
begin

section \<open>Data model\<close>

text \<open>
  The two symbol generators of the repository, \<^verbatim>\<open>styles['G*M*BCD---']\<close> (ford difficult)
  and \<^verbatim>\<open>styles['G*T*X-----']\<close> (tasks / clear), build their artwork from a geometry
  kernel imported as \<^verbatim>\<open>TS\<close>. Coordinates, widths and angles are real numbers, as the
  data model of the specification has them (a coordinate is a pair of reals). The one
  number that decides the shape of the result, the subdivision count
  \<^verbatim>\<open>Math.floor(width / resolution / 5)\<close>, is computed as JavaScript computes it: each
  division is rounded to the nearest binary64 number, and a division by zero gives an
  infinity or \<^verbatim>\<open>NaN\<close>.
\<close>

type_synonym coord = "real \<times> real"

type_synonym line_string = "coord list"

type_synonym segment = "coord \<times> coord"

datatype error = DegenerateGeometry | InvalidParameter | ConflictingDefinition | NotFound

text \<open>
  Modelled from the spec: \<^verbatim>\<open>TS.point\<close>, \<^verbatim>\<open>TS.lineString\<close>, \<^verbatim>\<open>TS.lineBuffer\<close>,
  \<^verbatim>\<open>TS.pointBuffer\<close>, \<^verbatim>\<open>TS.boundary\<close>, \<^verbatim>\<open>TS.difference\<close> and \<^verbatim>\<open>TS.collect\<close> (module
  \<^verbatim>\<open>../../ts\<close>) and \<^verbatim>\<open>openArrow\<close> (module \<^verbatim>\<open>./commons\<close>) are not among the sources.
  Section 4.1 of the specification gives the first seven as constructors and as
  operations of an external computational-geometry library, and says of the last only
  that it makes an open arrow marker. Each is a constructor that records the operation
  and its arguments; none of them fails.
\<close>

datatype geometry =
    Point coord
  | Line line_string
  | LineBuffer geometry real
  | PointBuffer coord real
  | Boundary geometry
  | Difference "geometry list"
  | Collect "geometry list"
  | OpenArrow real real coord

record text_options =
  text_of :: string
  flip :: bool
  rotation :: real

text \<open>
  The drawable primitives: what the constructors \<^verbatim>\<open>styles.dashedStroke\<close>,
  \<^verbatim>\<open>styles.solidStroke\<close>, \<^verbatim>\<open>styles.defaultStroke\<close> and \<^verbatim>\<open>styles.text\<close> of the
  generator's context wrap.
\<close>

datatype primitive =
    DashedStroke geometry
  | SolidStroke geometry
  | DefaultStroke geometry
  | TextLabel geometry text_options

record args =
  lineString :: line_string
  width :: real
  resolution :: real

type_synonym generator = "args \<Rightarrow> error + primitive list"

type_synonym registry = "string \<rightharpoonup> generator"

section \<open>Geometry kernel\<close>

text \<open>
  Modelled from the spec: the module \<^verbatim>\<open>../../ts\<close> (imported as \<^verbatim>\<open>TS\<close>) is not among
  the sources. Each definition of this section follows the words of section 4.1 of the
  specification for the operation of the same name.
\<close>

definition coordinates :: "line_string \<Rightarrow> coord list" where
  \<comment> \<open>Modelled from the spec: \<^verbatim>\<open>TS.coordinates\<close>, the vertex list of a LineString.\<close>
  "coordinates ls = ls"

definition segment :: "coord \<Rightarrow> coord \<Rightarrow> error + segment" where
  \<comment> \<open>Modelled from the spec: \<^verbatim>\<open>TS.segment(a, b)\<close>, failing with DegenerateGeometry if a == b.\<close>
  "segment a b = (if a = b then Inl DegenerateGeometry else Inr (a, b))"

definition segment_of :: "coord list \<Rightarrow> error + segment" where
  \<comment> \<open>Modelled from the spec: \<^verbatim>\<open>TS.segment(coords)\<close>, from the first and the last coordinate;
      empty input fails with a named condition.\<close>
  "segment_of cs = (case cs of [] \<Rightarrow> Inl DegenerateGeometry | _ \<Rightarrow> segment (hd cs) (last cs))"

definition atan2 :: "real \<Rightarrow> real \<Rightarrow> real" where
  \<comment> \<open>Modelled from the spec: "standard atan2 semantics", \<^verbatim>\<open>atan2 y x\<close> in \<open>(-\<pi>, \<pi>]\<close>.\<close>
  "atan2 y x =
     (if 0 < x then arctan (y / x)
      else if x < 0 then (if 0 \<le> y then arctan (y / x) + pi else arctan (y / x) - pi)
      else if 0 < y then pi / 2
      else if y < 0 then - (pi / 2)
      else 0)"

definition angle :: "segment \<Rightarrow> real" where
  \<comment> \<open>Modelled from the spec: \<^verbatim>\<open>segment.angle()\<close>, the bearing from start to end.\<close>
  "angle s = atan2 (snd (snd s) - snd (fst s)) (fst (snd s) - fst (fst s))"

definition midPoint :: "segment \<Rightarrow> coord" where
  \<comment> \<open>Modelled from the spec: \<^verbatim>\<open>segment.midPoint()\<close>, the arithmetic mean of the endpoints.\<close>
  "midPoint s = ((fst (fst s) + fst (snd s)) / 2, (snd (fst s) + snd (snd s)) / 2)"

definition dir :: "real \<Rightarrow> coord" where
  \<comment> \<open>Modelled from the spec: the unit vector at an angle.\<close>
  "dir a = (cos a, sin a)"

definition perp :: "real \<Rightarrow> coord" where
  \<comment> \<open>Modelled from the spec: \<open>dir\<close> rotated by \<open>+\<pi>/2\<close>.\<close>
  "perp a = (- sin a, cos a)"

definition projectCoordinates :: "real \<Rightarrow> real \<Rightarrow> coord \<Rightarrow> (real \<times> real) list \<Rightarrow> coord list" where
  \<comment> \<open>Modelled from the spec: \<^verbatim>\<open>TS.projectCoordinates(distance, angle, origin)(offsets)\<close>.\<close>
  "projectCoordinates distance a origin offsets =
     map (\<lambda>(alongFactor, perpFactor).
            (fst origin + alongFactor * distance * fst (dir a) + perpFactor * distance * fst (perp a),
             snd origin + alongFactor * distance * snd (dir a) + perpFactor * distance * snd (perp a)))
         offsets"

text \<open>
  The argument \<^verbatim>\<open>n\<close> of \<^verbatim>\<open>segmentize\<close> is a JavaScript number: an integer count, or a
  number that is not finite (\<^verbatim>\<open>Infinity\<close>, \<^verbatim>\<open>-Infinity\<close>, \<^verbatim>\<open>NaN\<close>).
\<close>

datatype subdivision_count = Count int | NonFinite

definition pointAlong :: "segment \<Rightarrow> real \<Rightarrow> coord" where
  \<comment> \<open>Modelled from the spec: the point at a fraction of the way from start to end.\<close>
  "pointAlong s t =
     (fst (fst s) + t * (fst (snd s) - fst (fst s)), snd (fst s) + t * (snd (snd s) - snd (fst s)))"

definition segmentize :: "segment \<Rightarrow> subdivision_count \<Rightarrow> error + coord list" where
  \<comment> \<open>Modelled from the spec: \<^verbatim>\<open>TS.segmentize(segment, n)\<close>, \<open>n + 1\<close> evenly spaced coordinates;
      \<open>n\<close> must be at least 1. A number that is not finite is not a count of sub-segments
      and is refused in the same way.\<close>
  "segmentize s n =
     (case n of
        NonFinite \<Rightarrow> Inl InvalidParameter
      | Count k \<Rightarrow>
          if k < 1 then Inl InvalidParameter
          else Inr (map (\<lambda>i. pointAlong s (real i / real_of_int k)) [0 ..< nat k + 1]))"

definition startPoint :: "line_string \<Rightarrow> coord" where
  \<comment> \<open>Modelled from the spec: \<^verbatim>\<open>TS.startPoint\<close>.\<close>
  "startPoint ls = hd ls"

definition endPoint :: "line_string \<Rightarrow> coord" where
  \<comment> \<open>Modelled from the spec: \<^verbatim>\<open>TS.endPoint\<close>.\<close>
  "endPoint ls = last ls"

section \<open>Library functions used by the generators\<close>

fun filter_index :: "(nat \<Rightarrow> bool) \<Rightarrow> nat \<Rightarrow> 'a list \<Rightarrow> 'a list" where
  \<comment> \<open>\<^verbatim>\<open>xs.filter((_, i) => p(i))\<close>: the callback sees only the index; the second argument is
      the index of the head of the list.\<close>
  "filter_index p i [] = []"
| "filter_index p i (x # xs) =
     (if p i then x # filter_index p (Suc i) xs else filter_index p (Suc i) xs)"

definition flatten :: "('a \<times> 'a) list \<Rightarrow> 'a list" where
  \<comment> \<open>\<^verbatim>\<open>R.flatten\<close> on the list of two-element arrays that \<^verbatim>\<open>R.zip\<close> returns (coordinates are
      objects, not arrays, and stay whole). \<^verbatim>\<open>R.zip\<close> itself is \<^const>\<open>zip\<close>: it stops at the
      end of the shorter list.\<close>
  "flatten ps = concat (map (\<lambda>(a, b). [a, b]) ps)"

text \<open>
  Binary64 arithmetic, as far as line 18 needs it. A finite double is \<open>m * pow2 (e - 52)\<close>
  with an integer \<open>m\<close> of magnitude at most \<open>2 ^ 53\<close> and \<open>-1022 \<le> e \<le> 1023\<close>; a division
  returns the double nearest to the exact quotient, the one with the even \<open>m\<close> when two
  are equally near, and an infinity when the rounded magnitude reaches \<open>pow2 1024\<close>. The
  two zeros are not told apart: only the sign of an infinity depends on them, and no
  infinity is a count.
\<close>

datatype number = Finite real | PosInfinity | NegInfinity | NaN

definition pow2 :: "int \<Rightarrow> real" where
  "pow2 e = (if 0 \<le> e then 2 ^ nat e else 1 / 2 ^ nat (- e))"

definition round_even :: "real \<Rightarrow> int" where
  \<comment> \<open>The nearest integer, the even one of two that are equally near.\<close>
  "round_even q =
     (let f = \<lfloor>q\<rfloor>; d = q - of_int f
      in if d < 1 / 2 then f else if 1 / 2 < d then f + 1 else if even f then f else f + 1)"

definition binade :: "real \<Rightarrow> int" where
  \<comment> \<open>The exponent \<open>e\<close> with \<open>pow2 e \<le> |x| < pow2 (e + 1)\<close>, and \<open>-1022\<close> for the subnormal
      numbers below.\<close>
  "binade x = max \<lfloor>log 2 \<bar>x\<bar>\<rfloor> (- 1022)"

definition to_double :: "real \<Rightarrow> number" where
  \<comment> \<open>Rounding an exact result to binary64, to nearest, ties to even.\<close>
  "to_double x =
     (if x = 0 then Finite 0
      else let u = pow2 (binade x - 52);
               y = of_int (round_even (x / u)) * u
           in if pow2 1024 \<le> \<bar>y\<bar> then (if 0 < x then PosInfinity else NegInfinity) else Finite y)"

definition js_divide :: "number \<Rightarrow> real \<Rightarrow> number" where
  \<comment> \<open>The JavaScript operator \<^verbatim>\<open>/\<close> with a finite divisor.\<close>
  "js_divide x d =
     (case x of
        Finite a \<Rightarrow>
          if d = 0 then (if a = 0 then NaN else if 0 < a then PosInfinity else NegInfinity)
          else to_double (a / d)
      | PosInfinity \<Rightarrow> (if 0 \<le> d then PosInfinity else NegInfinity)
      | NegInfinity \<Rightarrow> (if 0 \<le> d then NegInfinity else PosInfinity)
      | NaN \<Rightarrow> NaN)"

definition subdivisions :: "real \<Rightarrow> real \<Rightarrow> subdivision_count" where
  \<comment> \<open>\<^verbatim>\<open>Math.floor(width / resolution / 5)\<close>: \<^verbatim>\<open>Math.floor\<close> is exact on a finite double and
      returns any other number unchanged.\<close>
  "subdivisions w r =
     (case js_divide (js_divide (Finite w) r) 5 of Finite q \<Rightarrow> Count \<lfloor>q\<rfloor> | _ \<Rightarrow> NonFinite)"

section \<open>The generators\<close>

text \<open>
  \<^verbatim>\<open>styles['G*M*BCD---']\<close>, lines 7 to 22: the coordinates \<^verbatim>\<open>x\<close> of the connector. The
  calls are in the order in which JavaScript evaluates them, so the first kernel
  operation that fails decides the error.
\<close>

definition connector :: "args \<Rightarrow> error + coord list" where
  "connector a =
     (let coords = coordinates (lineString a) in
      case segment_of coords of
        Inl e \<Rightarrow> Inl e
      | Inr seg \<Rightarrow>
          let ang = angle seg;
              mid = midPoint seg;
              ps = projectCoordinates (width a / 1.5) ang mid [(0, 1), (0, - 1)];
              p0 = ps ! 0;
              p1 = ps ! 1;
              qs = projectCoordinates (resolution a * 4) ang p0 [(- 1, 0), (1, 0)]
                 @ projectCoordinates (resolution a * 4) ang p1 [(- 1, 0), (1, 0)];
              p00 = qs ! 0;
              p01 = qs ! 1;
              p10 = qs ! 2;
              p11 = qs ! 3;
              n = subdivisions (width a) (resolution a)
          in case segment p00 p10 of
               Inl e \<Rightarrow> Inl e
             | Inr s0 \<Rightarrow>
                 (case segmentize s0 n of
                    Inl e \<Rightarrow> Inl e
                  | Inr xs \<Rightarrow>
                      (case segment p01 p11 of
                         Inl e \<Rightarrow> Inl e
                       | Inr s1 \<Rightarrow>
                           (case segmentize s1 n of
                              Inl e \<Rightarrow> Inl e
                            | Inr ys \<Rightarrow>
                                Inr (flatten (zip (filter_index (\<lambda>i. i mod 2 = 0) 0 xs)
                                                  (filter_index (\<lambda>i. i mod 2 \<noteq> 0) 0 ys)))))))"

text \<open>\<^verbatim>\<open>styles['G*M*BCD---']\<close>, lines 24 to 31: the two primitives returned.\<close>

definition G_M_BCD :: generator where
  "G_M_BCD a =
     (case connector a of
        Inl e \<Rightarrow> Inl e
      | Inr x \<Rightarrow>
          Inr [DashedStroke (Difference
                 [Boundary (LineBuffer (Line (lineString a)) (width a / 2)),
                  PointBuffer (startPoint (lineString a)) (width a / 2),
                  PointBuffer (endPoint (lineString a)) (width a / 2)]),
               SolidStroke (Line x)])"

text \<open>\<^verbatim>\<open>styles['G*T*X-----']\<close>, lines 38 to 64.\<close>

definition G_T_X :: generator where
  "G_T_X a =
     (let coords = coordinates (lineString a) in
      case segment_of coords of
        Inl e \<Rightarrow> Inl e
      | Inr seg \<Rightarrow>
          let ang = angle seg;
              ps = projectCoordinates (width a / 2) ang (coords ! 0) [(0, 0.75), (0, - 0.75)]
                 @ projectCoordinates (width a / 2) ang (coords ! 1)
                     [(0, 0.75), (0, - 0.75), (0, 1), (0, - 1)];
              p00 = ps ! 0;
              p01 = ps ! 1;
              p10 = ps ! 2;
              p11 = ps ! 3;
              p20 = ps ! 4;
              p21 = ps ! 5;
              arrows = map (\<lambda>c. OpenArrow (resolution a) ang c) [p10, coords ! 1, p11];
              geom = Collect ([Line (lineString a), Line [p00, p10], Line [p01, p11], Line [p20, p21]]
                              @ arrows)
          in Inr [DefaultStroke geom,
                  TextLabel (Point (midPoint seg))
                    \<lparr>text_of = ''C'', flip = True, rotation = pi - ang\<rparr>])"

section \<open>The registry\<close>

text \<open>
  A generator module registers itself by the assignment \<^verbatim>\<open>styles[id] = generator\<close> on the
  object \<^verbatim>\<open>styles\<close> it imports. The object is a parameter here; the assignment stores the
  generator under the key whether or not the key is present, and returns normally.
\<close>

definition register :: "string \<Rightarrow> generator \<Rightarrow> registry \<Rightarrow> error + registry" where
  "register ident g m = Inr (m(ident \<mapsto> g))"

fun load :: "(string \<times> generator) list \<Rightarrow> registry \<Rightarrow> error + registry" where
  \<comment> \<open>The modules run one after the other when the program is loaded.\<close>
  "load [] m = Inr m"
| "load ((ident, g) # rest) m =
     (case register ident g m of Inl e \<Rightarrow> Inl e | Inr m' \<Rightarrow> load rest m')"

text \<open>
  Modelled from the spec: the entry point \<^verbatim>\<open>synthesize\<close> of section 6 of the specification
  is not among the sources. It looks the identifier up, answers NotFound for one that
  is not registered, fails with InvalidParameter unless width and resolution are
  positive, and otherwise returns what the generator returns.
\<close>

definition synthesize :: "registry \<Rightarrow> string \<Rightarrow> args \<Rightarrow> error + primitive list" where
  \<comment> \<open>Modelled from the spec: \<^verbatim>\<open>synthesize(identifier, baseGeometry, width, resolution)\<close>.\<close>
  "synthesize reg ident a =
     (case reg ident of
        None \<Rightarrow> Inl NotFound
      | Some g \<Rightarrow> if width a \<le> 0 \<or> resolution a \<le> 0 then Inl InvalidParameter else g a)"

section \<open>Notions used to state the properties\<close>

definition double_1_6 :: real where
  \<comment> \<open>The binary64 number that the literal \<^verbatim>\<open>1.6\<close> denotes.\<close>
  "double_1_6 = 3602879701896397 / 2 ^ 51"

definition translate :: "coord \<Rightarrow> coord \<Rightarrow> coord" where
  "translate t p = (fst p + fst t, snd p + snd t)"

definition offset_from :: "coord \<Rightarrow> real \<Rightarrow> real \<Rightarrow> real \<Rightarrow> coord" where
  \<comment> \<open>The point reached from \<open>c\<close> by \<open>al\<close> along the bearing \<open>a\<close> and \<open>pe\<close> to its left.\<close>
  "offset_from c a al pe = (fst c + al * cos a - pe * sin a, snd c + al * sin a + pe * cos a)"

definition on_segment :: "coord \<Rightarrow> coord \<Rightarrow> coord \<Rightarrow> bool" where
  \<comment> \<open>\<open>p\<close> lies on the closed straight segment from \<open>a\<close> to \<open>b\<close>.\<close>
  "on_segment a b p =
     ((fst b - fst a) * (snd p - snd a) - (snd b - snd a) * (fst p - fst a) = 0
      \<and> 0 \<le> (fst p - fst a) * (fst b - fst a) + (snd p - snd a) * (snd b - snd a)
      \<and> (fst p - fst a) * (fst b - fst a) + (snd p - snd a) * (snd b - snd a)
          \<le> (fst b - fst a) * (fst b - fst a) + (snd b - snd a) * (snd b - snd a))"

fun on_path :: "coord list \<Rightarrow> coord \<Rightarrow> bool" where
  "on_path (a # b # rest) p = (on_segment a b p \<or> on_path (b # rest) p)"
| "on_path _ p = False"

fun vertices :: "geometry \<Rightarrow> coord list" where
  \<comment> \<open>The coordinates of the line strings of a geometry.\<close>
  "vertices (Line cs) = cs"
| "vertices (Collect gs) = concat (map vertices gs)"
| "vertices _ = []"

fun tick_at :: "coord \<Rightarrow> geometry \<Rightarrow> bool" where
  \<comment> \<open>A two-point stroke centred on \<open>c\<close>.\<close>
  "tick_at c (Line [p, q]) = (p \<noteq> q \<and> midPoint (p, q) = c)"
| "tick_at c _ = False"

fun parts :: "geometry \<Rightarrow> geometry list" where
  \<comment> \<open>The members of a group made by \<^verbatim>\<open>TS.collect\<close>; any other geometry is its own only part.\<close>
  "parts (Collect gs) = gs"
| "parts g = [g]"

fun stroked :: "primitive \<Rightarrow> geometry list" where
  "stroked (DashedStroke g) = parts g"
| "stroked (SolidStroke g) = parts g"
| "stroked (DefaultStroke g) = parts g"
| "stroked (TextLabel g opts) = []"

definition strokes :: "error + primitive list \<Rightarrow> geometry list" where
  \<comment> \<open>Everything a generator's result strokes, in drawing order.\<close>
  "strokes r = (case r of Inl e \<Rightarrow> [] | Inr ps \<Rightarrow> concat (map stroked ps))"

definition scenario_A :: args where
  "scenario_A = \<lparr>lineString = [(0, 0), (100, 0)], width = 10, resolution = 1\<rparr>"

definition scenario_B :: "real \<Rightarrow> args" where
  "scenario_B r = \<lparr>lineString = [(0, 0), (10, 0)], width = 4, resolution = r\<rparr>"

definition scenario_wide :: args where
  "scenario_wide = \<lparr>lineString = [(0, 0), (100, 0)], width = 20, resolution = 1\<rparr>"

section \<open>Properties of the kernel\<close>

lemma pointAlong_0: "pointAlong (a, b) 0 = a"
  by (simp add: pointAlong_def)

lemma pointAlong_1: "pointAlong (a, b) 1 = b"
  by (simp add: pointAlong_def)

lemma arctan_pos_bounds: "0 < t \<Longrightarrow> 0 < arctan t \<and> arctan t < pi / 2"
  using arctan_ubound [of t] arctan_less_iff [of 0 t] by simp

lemma atan2_range: "- pi < atan2 y x \<and> atan2 y x \<le> pi"
proof -
  have b: "- (pi / 2) < arctan (y / x)" "arctan (y / x) < pi / 2"
    using arctan_lbound arctan_ubound by auto
  have p: "0 < pi" by simp
  consider (pos) "0 < x" | (neg_up) "x < 0" "0 \<le> y" | (neg_down) "x < 0" "y < 0" | (zero) "x = 0"
    by linarith
  then show ?thesis
  proof cases
    case pos
    then show ?thesis using b p by (simp add: atan2_def)
  next
    case neg_up
    then have "y / x \<le> 0" by (simp add: divide_nonneg_neg)
    then have "arctan (y / x) \<le> 0" by simp
    then show ?thesis using neg_up b p by (simp add: atan2_def)
  next
    case neg_down
    then have "0 < y / x" by (simp add: divide_neg_neg)
    then have "0 < arctan (y / x)" using arctan_pos_bounds by blast
    then show ?thesis using neg_down b p by (simp add: atan2_def)
  next
    case zero
    then have "atan2 y x = pi / 2 \<or> atan2 y x = - (pi / 2) \<or> atan2 y x = 0"
      by (simp add: atan2_def)
    then show ?thesis using p by argo
  qed
qed

lemma atan2_reverse:
  assumes "x \<noteq> 0 \<or> y \<noteq> 0"
  shows "atan2 y x - atan2 (- y) (- x) = pi \<or> atan2 y x - atan2 (- y) (- x) = - pi"
proof -
  consider (pos) "0 < x" | (neg) "x < 0" | (zero) "x = 0" "y \<noteq> 0"
    using assms by fastforce
  then show ?thesis
  proof cases
    case pos
    then show ?thesis by (auto simp: atan2_def)
  next
    case neg
    then show ?thesis by (auto simp: atan2_def)
  next
    case zero
    then show ?thesis by (auto simp: atan2_def)
  qed
qed

lemma atan2_scale: "0 < k \<Longrightarrow> atan2 (k * y) (k * x) = atan2 y x"
  by (simp add: atan2_def zero_less_mult_iff mult_less_0_iff zero_le_mult_iff)

lemmas kernel_defs = coordinates_def segment_of_def segment_def angle_def atan2_def
     midPoint_def projectCoordinates_def dir_def perp_def startPoint_def endPoint_def

section \<open>Points relative to a pivot\<close>

lemma segment_of_ends:
  "ls \<noteq> [] \<Longrightarrow> hd ls \<noteq> last ls \<Longrightarrow> segment_of ls = Inr (hd ls, last ls)"
  by (cases ls) (simp_all add: segment_of_def segment_def)

lemma segment_of_closed:
  "hd ls = last ls \<Longrightarrow> segment_of ls = Inl DegenerateGeometry"
  by (cases ls) (simp_all add: segment_of_def segment_def)

lemma projectCoordinates_offset_from:
  "projectCoordinates d a c offsets = map (\<lambda>(al, pe). offset_from c a (al * d) (pe * d)) offsets"
  by (simp add: projectCoordinates_def dir_def perp_def offset_from_def)

lemma offset_from_twice:
  "offset_from (offset_from c a al pe) a al' pe' = offset_from c a (al + al') (pe + pe')"
  by (simp add: offset_from_def algebra_simps)

lemma rotation_kernel:
  fixes u v s c :: real
  assumes "s\<^sup>2 + c\<^sup>2 = 1" and "u * c - v * s = 0" and "u * s + v * c = 0"
  shows "u = 0 \<and> v = 0"
proof -
  have "u * (s\<^sup>2 + c\<^sup>2) = (u * c - v * s) * c + (u * s + v * c) * s"
    by (simp add: algebra_simps power2_eq_square)
  then have u: "u = 0" using assms by simp
  have "v * (s\<^sup>2 + c\<^sup>2) = (u * s + v * c) * c - (u * c - v * s) * s"
    by (simp add: algebra_simps power2_eq_square)
  then have v: "v = 0" using assms by simp
  show ?thesis using u v by simp
qed

lemma offset_from_inject:
  "offset_from c a al pe = offset_from c a al' pe' \<longleftrightarrow> al = al' \<and> pe = pe'"
proof
  assume h: "offset_from c a al pe = offset_from c a al' pe'"
  from h have e1: "(al - al') * cos a - (pe - pe') * sin a = 0"
    and e2: "(al - al') * sin a + (pe - pe') * cos a = 0"
    by (simp_all add: offset_from_def algebra_simps)
  have "al - al' = 0 \<and> pe - pe' = 0"
    using rotation_kernel [OF sin_cos_squared_add e1 e2] .
  then show "al = al' \<and> pe = pe'" by simp
qed simp

lemma pointAlong_across:
  "pointAlong (offset_from c a al d, offset_from c a al (- d)) t = offset_from c a al ((1 - 2 * t) * d)"
  by (simp add: pointAlong_def offset_from_def algebra_simps)

section \<open>Filtering by index, zipping and flattening\<close>

lemma filter_index_map_upt:
  "filter_index p i (map f [i ..< i + m]) = map f (filter p [i ..< i + m])"
proof (induction m arbitrary: i)
  case 0
  then show ?case by simp
next
  case (Suc m)
  have "[i ..< i + Suc m] = i # [Suc i ..< Suc i + m]"
    by (simp add: upt_conv_Cons del: upt_Suc)
  then show ?case using Suc [of "Suc i"] by simp
qed

lemma filter_upt_step:
  "filter p [0 ..< Suc (Suc n)] = filter p [0 ..< Suc n] @ (if p (Suc n) then [Suc n] else [])"
proof -
  have "[0 ..< Suc (Suc n)] = [0 ..< Suc n] @ [Suc n]" by simp
  then show ?thesis by (simp del: upt_Suc)
qed

lemma map_upt_step: "map f [0 ..< Suc k] = map f [0 ..< k] @ [f k]"
  by simp

lemma evens_upt:
  "filter (\<lambda>i. i mod 2 = 0) [0 ..< Suc n] = map (\<lambda>j. 2 * j) [0 ..< n div 2 + 1]"
proof (induction n)
  case 0
  then show ?case by simp
next
  case (Suc n)
  show ?case
  proof (cases "Suc n mod 2 = 0")
    case True
    then have d: "Suc n div 2 + 1 = Suc (n div 2 + 1)" and e: "2 * (n div 2 + 1) = Suc n"
      by presburger+
    have "filter (\<lambda>i. i mod 2 = 0) [0 ..< Suc (Suc n)] = map (\<lambda>j. 2 * j) [0 ..< n div 2 + 1] @ [Suc n]"
      unfolding filter_upt_step Suc.IH using True by (simp del: upt_Suc)
    also have "\<dots> = map (\<lambda>j. 2 * j) [0 ..< Suc (n div 2 + 1)]"
      unfolding map_upt_step [of _ "n div 2 + 1"] e ..
    finally show ?thesis unfolding d .
  next
    case False
    then have d: "Suc n div 2 = n div 2" by presburger
    have "filter (\<lambda>i. i mod 2 = 0) [0 ..< Suc (Suc n)] = map (\<lambda>j. 2 * j) [0 ..< n div 2 + 1]"
      unfolding filter_upt_step Suc.IH using False by (simp del: upt_Suc)
    then show ?thesis unfolding d .
  qed
qed

lemma odds_upt:
  "filter (\<lambda>i. i mod 2 \<noteq> 0) [0 ..< Suc n] = map (\<lambda>j. 2 * j + 1) [0 ..< (n + 1) div 2]"
proof (induction n)
  case 0
  then show ?case by simp
next
  case (Suc n)
  show ?case
  proof (cases "Suc n mod 2 = 0")
    case True
    then have d: "(Suc n + 1) div 2 = (n + 1) div 2" by presburger
    have "filter (\<lambda>i. i mod 2 \<noteq> 0) [0 ..< Suc (Suc n)] = map (\<lambda>j. 2 * j + 1) [0 ..< (n + 1) div 2]"
      unfolding filter_upt_step Suc.IH using True by (simp del: upt_Suc)
    then show ?thesis unfolding d .
  next
    case False
    then have d: "(Suc n + 1) div 2 = Suc ((n + 1) div 2)" and e: "2 * ((n + 1) div 2) + 1 = Suc n"
      by presburger+
    have "filter (\<lambda>i. i mod 2 \<noteq> 0) [0 ..< Suc (Suc n)]
          = map (\<lambda>j. 2 * j + 1) [0 ..< (n + 1) div 2] @ [Suc n]"
      unfolding filter_upt_step Suc.IH using False by (simp del: upt_Suc)
    also have "\<dots> = map (\<lambda>j. 2 * j + 1) [0 ..< Suc ((n + 1) div 2)]"
      unfolding map_upt_step [of _ "(n + 1) div 2"] e ..
    finally show ?thesis unfolding d .
  qed
qed

lemma zip_map_upt:
  "zip (map f [0 ..< k]) (map g [0 ..< m]) = map (\<lambda>j. (f j, g j)) [0 ..< min k m]"
  by (rule nth_equalityI) simp_all

lemma flatten_map:
  "flatten (map (\<lambda>j. (f j, g j)) js) = concat (map (\<lambda>j. [f j, g j]) js)"
  by (simp add: flatten_def comp_def)

lemma length_concat_pairs: "length (concat (map (\<lambda>j. [f j, g j]) js)) = 2 * length js"
  by (induction js) simp_all

lemma interleave:
  "flatten (zip (filter_index (\<lambda>i. i mod 2 = 0) 0 (map f [0 ..< n + 1]))
                (filter_index (\<lambda>i. i mod 2 \<noteq> 0) 0 (map g [0 ..< n + 1])))
   = concat (map (\<lambda>j. [f (2 * j), g (2 * j + 1)]) [0 ..< (n + 1) div 2])"
proof -
  have m: "min (n div 2 + 1) ((n + 1) div 2) = (n + 1) div 2" by presburger
  have a: "filter_index (\<lambda>i. i mod 2 = 0) 0 (map f [0 ..< n + 1])
           = map (\<lambda>j. f (2 * j)) [0 ..< n div 2 + 1]"
    using filter_index_map_upt [of "\<lambda>i. i mod 2 = 0" 0 f "n + 1"] evens_upt [of n]
    by (simp add: comp_def del: upt_Suc)
  have b: "filter_index (\<lambda>i. i mod 2 \<noteq> 0) 0 (map g [0 ..< n + 1])
           = map (\<lambda>j. g (2 * j + 1)) [0 ..< (n + 1) div 2]"
    using filter_index_map_upt [of "\<lambda>i. i mod 2 \<noteq> 0" 0 g "n + 1"] odds_upt [of n]
    by (simp add: comp_def del: upt_Suc)
  show ?thesis
    unfolding a b zip_map_upt m by (rule flatten_map)
qed

section \<open>Rounding to binary64\<close>

lemma pow2_powr: "pow2 e = 2 powr (of_int e)"
  by (simp add: pow2_def powr_int)

lemma pow2_pos: "0 < pow2 e"
  by (simp add: pow2_powr)

lemma pow2_add: "pow2 (a + b) = pow2 a * pow2 b"
  by (simp add: pow2_powr powr_add)

lemma pow2_mono: "a \<le> b \<Longrightarrow> pow2 a \<le> pow2 b"
  by (simp add: pow2_powr)

lemma binade_eq:
  assumes "pow2 e \<le> \<bar>x\<bar>" and "\<bar>x\<bar> < pow2 (e + 1)" and "- 1022 \<le> e"
  shows "binade x = e"
proof -
  have "0 < \<bar>x\<bar>" using assms(1) pow2_pos [of e] by linarith
  moreover have "2 powr (of_int e) \<le> \<bar>x\<bar>" "\<bar>x\<bar> < 2 powr (of_int e + 1)"
    using assms(1,2) by (simp_all add: pow2_powr)
  ultimately have "\<lfloor>log 2 \<bar>x\<bar>\<rfloor> = e"
    by (simp add: floor_log_eq_powr_iff)
  then show ?thesis using assms(3) by (simp add: binade_def)
qed

lemma round_even_nearest:
  assumes "\<bar>q - of_int m\<bar> < 1 / 2"
  shows "round_even q = m"
proof (cases "of_int m \<le> q")
  case True
  then have "\<lfloor>q\<rfloor> = m" using assms by linarith
  then show ?thesis using assms True by (simp add: round_even_def Let_def)
next
  case False
  then have f: "\<lfloor>q\<rfloor> = m - 1" using assms by linarith
  have "1 / 2 < q - of_int (m - 1)" using assms False by simp
  then show ?thesis using f by (simp add: round_even_def Let_def)
qed

text \<open>
  A number in a binade that does not overflow rounds to the multiple of the binade's
  unit that is less than half a unit away.
\<close>

lemma to_double_nearest:
  assumes "pow2 e \<le> \<bar>x\<bar>" and "\<bar>x\<bar> < pow2 (e + 1)" and "- 1022 \<le> e" and "e \<le> 1022"
    and "\<bar>x / pow2 (e - 52) - of_int m\<bar> < 1 / 2"
  shows "to_double x = Finite (of_int m * pow2 (e - 52))"
proof -
  let ?u = "pow2 (e - 52)"
  have u: "0 < ?u" by (rule pow2_pos)
  have x: "x \<noteq> 0" using assms(1) pow2_pos [of e] by auto
  have b: "binade x = e" using assms(1-3) by (rule binade_eq)
  have r: "round_even (x / ?u) = m" using assms(5) by (rule round_even_nearest)
  have split: "pow2 (e + 1) = pow2 53 * ?u"
    using pow2_add [of 53 "e - 52"] by (simp add: add.commute)
  then have "\<bar>x / ?u\<bar> < pow2 53"
    using assms(2) u by (simp add: field_simps)
  then have "\<bar>of_int m\<bar> < pow2 53 + 1 / 2" using assms(5) by linarith
  moreover have p: "pow2 53 = of_int (2 ^ 53)" by (simp add: pow2_def)
  ultimately have "\<bar>of_int m :: real\<bar> < of_int (2 ^ 53) + 1 / 2" by simp
  then have "\<bar>m\<bar> \<le> 2 ^ 53" by linarith
  then have "\<bar>of_int m :: real\<bar> \<le> pow2 53"
    unfolding p by linarith
  then have "\<bar>of_int m * ?u\<bar> \<le> pow2 53 * ?u"
    using u by (simp add: abs_mult)
  also have "\<dots> = pow2 (e + 1)" using split by simp
  also have "\<dots> \<le> pow2 1023" using assms(4) by (intro pow2_mono) simp
  also have "\<dots> < pow2 1024" by (simp add: pow2_def)
  finally have "\<not> pow2 1024 \<le> \<bar>of_int m * ?u\<bar>" by simp
  then show ?thesis using x by (simp add: to_double_def b r Let_def)
qed

lemma to_double_small_integers:
  "to_double 1 = Finite 1" "to_double 2 = Finite 2" "to_double 3 = Finite 3"
  "to_double 4 = Finite 4" "to_double 10 = Finite 10" "to_double 20 = Finite 20"
  using to_double_nearest [of 0 1 "2 ^ 52"] to_double_nearest [of 1 2 "2 ^ 52"]
    to_double_nearest [of 1 3 "3 * 2 ^ 51"] to_double_nearest [of 2 4 "2 ^ 52"]
    to_double_nearest [of 3 10 "10 * 2 ^ 49"] to_double_nearest [of 4 20 "20 * 2 ^ 48"]
  by (simp_all add: pow2_def)

lemma subdivisions_10_1: "subdivisions 10 1 = Count 2"
  by (simp add: subdivisions_def js_divide_def to_double_small_integers)

lemma subdivisions_20_1: "subdivisions 20 1 = Count 4"
  by (simp add: subdivisions_def js_divide_def to_double_small_integers)

text \<open>
  Where the rounding matters: the exact quotient of 24 by the double \<^verbatim>\<open>1.6\<close> is a little
  less than 15 and rounds to 15, so the count is 3, and that of 8 by \<^verbatim>\<open>1.6\<close> rounds to 5,
  so the count is 1.
\<close>

lemma double_1_6_nonzero: "double_1_6 \<noteq> 0"
  by (simp add: double_1_6_def)

lemma to_double_24_by_1_6: "to_double (24 / double_1_6) = Finite 15"
  using to_double_nearest [of 3 "24 / double_1_6" "15 * 2 ^ 49"]
  by (simp add: pow2_def double_1_6_def)

lemma to_double_8_by_1_6: "to_double (8 / double_1_6) = Finite 5"
  using to_double_nearest [of 2 "8 / double_1_6" "5 * 2 ^ 50"]
  by (simp add: pow2_def double_1_6_def)

lemma subdivisions_24_1_6: "subdivisions 24 double_1_6 = Count 3"
  by (simp add: subdivisions_def js_divide_def double_1_6_nonzero to_double_24_by_1_6
      to_double_small_integers)

lemma subdivisions_8_1_6: "subdivisions 8 double_1_6 = Count 1"
  by (simp add: subdivisions_def js_divide_def double_1_6_nonzero to_double_8_by_1_6
      to_double_small_integers)

text \<open>
  A quotient of magnitude \<open>pow2 1024\<close> or more rounds to an infinity, and then there is
  no count: \<^verbatim>\<open>Math.floor(1e308 / 1e-308 / 5)\<close> is \<^verbatim>\<open>Infinity\<close>.
\<close>

lemma round_even_lower: "of_int N \<le> q \<Longrightarrow> N \<le> round_even q"
proof -
  assume "of_int N \<le> q"
  then have "N \<le> \<lfloor>q\<rfloor>" by (simp add: le_floor_iff)
  then show ?thesis by (auto simp: round_even_def Let_def)
qed

lemma round_even_upper: "q \<le> of_int N \<Longrightarrow> round_even q \<le> N"
proof -
  assume h: "q \<le> of_int N"
  show ?thesis
  proof (cases "q = of_int N")
    case True
    then show ?thesis by (simp add: round_even_def Let_def)
  next
    case False
    then have "q < of_int N" using h by simp
    then have "\<lfloor>q\<rfloor> < N" by (simp add: floor_less_iff)
    then show ?thesis by (auto simp: round_even_def Let_def)
  qed
qed

lemma pow2_less_iff: "pow2 a < pow2 b \<longleftrightarrow> a < b"
  by (simp add: pow2_powr)

lemma to_double_overflow:
  assumes "pow2 1024 \<le> \<bar>x\<bar>"
  shows "to_double x = (if 0 < x then PosInfinity else NegInfinity)"
proof -
  have x: "0 < \<bar>x\<bar>" using assms pow2_pos [of 1024] by linarith
  define e where "e = \<lfloor>log 2 \<bar>x\<bar>\<rfloor>"
  have "2 powr (of_int e) \<le> \<bar>x\<bar>" "\<bar>x\<bar> < 2 powr (of_int e + 1)"
    using x floor_log_eq_powr_iff [of "\<bar>x\<bar>" 2 e] by (simp_all add: e_def)
  then have lo: "pow2 e \<le> \<bar>x\<bar>" and hi: "\<bar>x\<bar> < pow2 (e + 1)" by (simp_all add: pow2_powr)
  have "pow2 1024 < pow2 (e + 1)" using assms hi by linarith
  then have "1024 < e + 1" by (simp only: pow2_less_iff)
  then have e: "1024 \<le> e" by simp
  have b: "binade x = e" using lo hi e by (intro binade_eq) simp_all
  let ?u = "pow2 (e - 52)"
  have u: "0 < ?u" by (rule pow2_pos)
  have split: "pow2 e = of_int (2 ^ 52) * ?u"
    using pow2_add [of 52 "e - 52"] by (simp add: pow2_def)
  have q: "of_int (2 ^ 52) \<le> \<bar>x / ?u\<bar>"
    using lo u unfolding split by (simp add: field_simps)
  have "2 ^ 52 \<le> \<bar>round_even (x / ?u)\<bar>"
  proof (cases "0 \<le> x / ?u")
    case True
    then have "of_int (2 ^ 52) \<le> x / ?u" using q by simp
    then have "2 ^ 52 \<le> round_even (x / ?u)" by (rule round_even_lower)
    then show ?thesis by simp
  next
    case False
    then have "x / ?u \<le> of_int (- (2 ^ 52))" using q by simp
    then have "round_even (x / ?u) \<le> - (2 ^ 52)" by (rule round_even_upper)
    then show ?thesis by simp
  qed
  then have "of_int (2 ^ 52) \<le> \<bar>of_int (round_even (x / ?u)) :: real\<bar>"
    by (metis of_int_abs of_int_le_iff)
  then have "of_int (2 ^ 52) * ?u \<le> \<bar>of_int (round_even (x / ?u)) * ?u\<bar>"
    using u by (simp add: abs_mult)
  then have "pow2 e \<le> \<bar>of_int (round_even (x / ?u)) * ?u\<bar>" unfolding split .
  moreover have "pow2 1024 \<le> pow2 e" using e by (rule pow2_mono)
  ultimately have "pow2 1024 \<le> \<bar>of_int (round_even (x / ?u)) * ?u\<bar>" by linarith
  moreover have "x \<noteq> 0" using x by simp
  ultimately show ?thesis by (simp add: to_double_def b Let_def)
qed

lemma subdivisions_overflow:
  assumes "0 < r" and "pow2 1024 * r \<le> w"
  shows "subdivisions w r = NonFinite"
proof -
  have q: "pow2 1024 \<le> w / r" using assms by (simp add: field_simps)
  then have p: "0 < w / r" using pow2_pos [of 1024] by linarith
  then have "pow2 1024 \<le> \<bar>w / r\<bar>" using q by linarith
  then have "to_double (w / r) = (if 0 < w / r then PosInfinity else NegInfinity)"
    by (rule to_double_overflow)
  then have "to_double (w / r) = PosInfinity" using p by (simp only: if_True)
  then show ?thesis using assms(1) by (simp add: subdivisions_def js_divide_def)
qed

lemma subdivisions_count_positive:
  assumes "subdivisions w r = Count k" and "1 \<le> k"
  shows "w \<noteq> 0 \<and> r \<noteq> 0"
proof (intro conjI notI)
  assume "w = 0"
  then have "subdivisions w r = (if r = 0 then NonFinite else Count 0)"
    by (simp add: subdivisions_def js_divide_def to_double_def)
  then show False using assms by (simp split: if_splits)
next
  assume "r = 0"
  then have "subdivisions w r = NonFinite"
    by (simp add: subdivisions_def js_divide_def)
  then show False using assms by simp
qed

section \<open>The generators on their inputs\<close>

lemma connector_unfold:
  assumes s: "segment_of (lineString a) = Inr seg"
    and w: "width a \<noteq> 0"
  shows "connector a =
    (case segmentize (offset_from (midPoint seg) (angle seg) (- (resolution a * 4)) (width a / 1.5),
                      offset_from (midPoint seg) (angle seg) (- (resolution a * 4)) (- (width a / 1.5)))
                     (subdivisions (width a) (resolution a)) of
       Inl e \<Rightarrow> Inl e
     | Inr xs \<Rightarrow>
        (case segmentize (offset_from (midPoint seg) (angle seg) (resolution a * 4) (width a / 1.5),
                          offset_from (midPoint seg) (angle seg) (resolution a * 4) (- (width a / 1.5)))
                         (subdivisions (width a) (resolution a)) of
           Inl e \<Rightarrow> Inl e
         | Inr ys \<Rightarrow> Inr (flatten (zip (filter_index (\<lambda>i. i mod 2 = 0) 0 xs)
                                       (filter_index (\<lambda>i. i mod 2 \<noteq> 0) 0 ys)))))"
  using w
  by (simp add: connector_def coordinates_def s Let_def projectCoordinates_offset_from
      offset_from_twice segment_def offset_from_inject cong: sum.case_cong)

lemma connector_value:
  assumes "lineString a \<noteq> []" and "hd (lineString a) \<noteq> last (lineString a)"
    and "subdivisions (width a) (resolution a) = Count k" and "1 \<le> k"
  shows "connector a =
     (let ls = lineString a;
          ang = angle (hd ls, last ls);
          mid = midPoint (hd ls, last ls);
          d = width a / 1.5;
          r4 = resolution a * 4;
          n = nat k
      in Inr (concat (map (\<lambda>j. [offset_from mid ang (- r4) ((1 - 2 * (real (2 * j) / real n)) * d),
                                 offset_from mid ang r4 ((1 - 2 * (real (2 * j + 1) / real n)) * d)])
                          [0 ..< (n + 1) div 2])))"
proof -
  let ?seg = "(hd (lineString a), last (lineString a))"
  have s: "segment_of (lineString a) = Inr ?seg"
    using assms by (simp add: segment_of_ends)
  have w: "width a \<noteq> 0"
    using subdivisions_count_positive [OF assms(3,4)] by simp
  have k: "real_of_int k = real (nat k)" using assms(4) by simp
  have seg: "\<And>sg. segmentize sg (Count k)
      = Inr (map (\<lambda>i. pointAlong sg (real i / real (nat k))) [0 ..< nat k + 1])"
    using assms(4) unfolding segmentize_def k by simp
  show ?thesis
    unfolding connector_unfold [OF s w] assms(3) seg
    by (simp only: sum.case interleave pointAlong_across Let_def)
qed

lemma ford_value:
  assumes "lineString a \<noteq> []" and "hd (lineString a) \<noteq> last (lineString a)"
    and "subdivisions (width a) (resolution a) = Count k" and "1 \<le> k"
  shows "G_M_BCD a =
     (let ls = lineString a;
          ang = angle (hd ls, last ls);
          mid = midPoint (hd ls, last ls);
          d = width a / 1.5;
          r4 = resolution a * 4;
          n = nat k
      in Inr [DashedStroke (Difference
                [Boundary (LineBuffer (Line ls) (width a / 2)),
                 PointBuffer (hd ls) (width a / 2),
                 PointBuffer (last ls) (width a / 2)]),
              SolidStroke (Line (concat (map
                (\<lambda>j. [offset_from mid ang (- r4) ((1 - 2 * (real (2 * j) / real n)) * d),
                      offset_from mid ang r4 ((1 - 2 * (real (2 * j + 1) / real n)) * d)])
                [0 ..< (n + 1) div 2])))])"
  unfolding G_M_BCD_def connector_value [OF assms]
  by (simp add: Let_def startPoint_def endPoint_def)

lemma connector_scenario_A: "connector scenario_A = Inr [(46, 20 / 3), (54, 0)]"
  by (simp add: connector_def scenario_A_def kernel_defs subdivisions_10_1 segmentize_def
      pointAlong_def flatten_def upt_rec Let_def)

lemma connector_scenario_wide:
  "connector scenario_wide = Inr [(46, 40 / 3), (54, 20 / 3), (46, 0), (54, - (20 / 3))]"
  by (simp add: connector_def scenario_wide_def kernel_defs subdivisions_20_1 segmentize_def
      pointAlong_def flatten_def upt_rec Let_def)

lemma clear_scenario_B_value:
  "G_T_X (scenario_B r) =
     Inr [DefaultStroke (Collect
            [Line [(0, 0), (10, 0)],
             Line [(0, 3 / 2), (10, 3 / 2)],
             Line [(0, - (3 / 2)), (10, - (3 / 2))],
             Line [(10, 2), (10, - 2)],
             OpenArrow r 0 (10, 3 / 2),
             OpenArrow r 0 (10, 0),
             OpenArrow r 0 (10, - (3 / 2))]),
          TextLabel (Point (5, 0)) \<lparr>text_of = ''C'', flip = True, rotation = pi\<rparr>]"
  by (simp add: G_T_X_def scenario_B_def kernel_defs Let_def)

lemma generators_differ: "G_M_BCD \<noteq> G_T_X"
proof
  assume "G_M_BCD = G_T_X"
  then have "G_M_BCD \<lparr>lineString = [(0, 0), (10, 0)], width = 0, resolution = 1\<rparr>
           = G_T_X \<lparr>lineString = [(0, 0), (10, 0)], width = 0, resolution = 1\<rparr>" by simp
  then show False
    by (simp add: G_M_BCD_def G_T_X_def connector_def kernel_defs Let_def)
qed

lemma load_value: "load regs m = Inr (m ++ map_of (rev regs))"
proof (induction regs arbitrary: m)
  case Nil
  then show ?case by simp
next
  case (Cons r regs)
  obtain ident g where r: "r = (ident, g)" by (cases r)
  have "load (r # regs) m = load regs (m(ident \<mapsto> g))"
    by (simp add: r register_def)
  also have "\<dots> = Inr (m(ident \<mapsto> g) ++ map_of (rev regs))"
    by (rule Cons)
  also have "m(ident \<mapsto> g) ++ map_of (rev regs) = m ++ map_of (rev (r # regs))"
    by (simp add: r map_add_assoc)
  finally show ?case .
qed

section \<open>Claims about the kernel\<close>

text \<open>
  C7 (kernel modelled from the specification). For coordinates \<open>a \<noteq> b\<close> and \<open>n \<ge> 1\<close>,
  \<^verbatim>\<open>segmentize(segment(a, b), n)\<close> returns exactly \<open>n + 1\<close> coordinates, the first \<open>a\<close>, the
  last \<open>b\<close>, the \<open>i\<close>-th at the fraction \<open>i / n\<close> of the way from \<open>a\<close> to \<open>b\<close>; for
  \<open>n < 1\<close> it fails with InvalidParameter.
\<close>

theorem segmentize_subdivides:
  "(a \<noteq> b \<and> 1 \<le> n \<longrightarrow>
      (\<exists>xs. segment a b = Inr (a, b) \<and> segmentize (a, b) (Count n) = Inr xs
         \<and> length xs = nat n + 1 \<and> hd xs = a \<and> last xs = b
         \<and> (\<forall>i. i \<le> nat n \<longrightarrow>
               xs ! i = (fst a + (real i / real_of_int n) * (fst b - fst a),
                         snd a + (real i / real_of_int n) * (snd b - snd a)))))
   \<and> (n < 1 \<longrightarrow> segmentize (a, b) (Count n) = Inl InvalidParameter)"
proof (intro conjI impI)
  assume h: "a \<noteq> b \<and> 1 \<le> n"
  let ?f = "\<lambda>i. pointAlong (a, b) (real i / real_of_int n)"
  let ?xs = "map ?f [0 ..< nat n + 1]"
  have s: "segmentize (a, b) (Count n) = Inr ?xs"
    using h by (simp add: segmentize_def)
  have len: "length ?xs = nat n + 1" by simp
  have ne: "[0 ..< nat n + 1] \<noteq> []" by simp
  have first: "hd ?xs = a"
    by (simp add: hd_map upt_conv_Cons pointAlong_0 del: upt_Suc)
  have "last ?xs = ?f (nat n)"
    by (simp add: last_map)
  also have "real (nat n) / real_of_int n = 1" using h by simp
  finally have final: "last ?xs = b" by (simp add: pointAlong_1)
  have nth: "\<forall>i. i \<le> nat n \<longrightarrow>
      ?xs ! i = (fst a + (real i / real_of_int n) * (fst b - fst a),
                 snd a + (real i / real_of_int n) * (snd b - snd a))"
  proof (intro allI impI)
    fix i assume "i \<le> nat n"
    then have "i < length [0 ..< nat n + 1]" by simp
    then have "?xs ! i = ?f ([0 ..< nat n + 1] ! i)" by (rule nth_map)
    also have "[0 ..< nat n + 1] ! i = i" using \<open>i \<le> nat n\<close> by (simp add: nth_upt del: upt_Suc)
    finally show "?xs ! i = (fst a + (real i / real_of_int n) * (fst b - fst a),
                 snd a + (real i / real_of_int n) * (snd b - snd a))"
      by (simp add: pointAlong_def)
  qed
  show "\<exists>xs. segment a b = Inr (a, b) \<and> segmentize (a, b) (Count n) = Inr xs
         \<and> length xs = nat n + 1 \<and> hd xs = a \<and> last xs = b
         \<and> (\<forall>i. i \<le> nat n \<longrightarrow>
               xs ! i = (fst a + (real i / real_of_int n) * (fst b - fst a),
                         snd a + (real i / real_of_int n) * (snd b - snd a)))"
    using h s len first final nth by (intro exI [of _ ?xs]) (simp add: segment_def)
next
  assume "n < 1"
  then show "segmentize (a, b) (Count n) = Inl InvalidParameter"
    by (simp add: segmentize_def)
qed

text \<open>An instance.\<close>

theorem segmentize_subdivides_witness:
  "segment (0, 0) (4, 2) = Inr ((0, 0), (4, 2))
   \<and> segmentize ((0, 0), (4, 2)) (Count 2) = Inr [(0, 0), (2, 1), (4, 2)]
   \<and> segmentize ((0, 0), (4, 2)) (Count 0) = Inl InvalidParameter"
  using segmentize_subdivides [of "(0, 0)" "(4, 2)" 2] segmentize_subdivides [of "(0, 0)" "(4, 2)" 0]
  by (simp add: segmentize_def pointAlong_def upt_rec)

text \<open>
  C8 (kernel modelled from the specification). \<^verbatim>\<open>projectCoordinates\<close> maps each pair
  (alongFactor, perpFactor) to origin + alongFactor \<open>\<cdot>\<close> distance \<open>\<cdot>\<close> dir + perpFactor
  \<open>\<cdot>\<close> distance \<open>\<cdot>\<close> perp, where dir is the unit vector at the angle and perp is dir
  rotated by \<open>+\<pi>/2\<close>; translating the origin and translating the results back gives
  the results for the original origin.
\<close>

theorem projectCoordinates_formula:
  "projectCoordinates d a origin offsets =
     map (\<lambda>(alongFactor, perpFactor).
            (fst origin + alongFactor * d * cos a + perpFactor * d * cos (a + pi / 2),
             snd origin + alongFactor * d * sin a + perpFactor * d * sin (a + pi / 2))) offsets
   \<and> (fst (dir a))\<^sup>2 + (snd (dir a))\<^sup>2 = 1
   \<and> perp a = dir (a + pi / 2)
   \<and> map (translate (- fst t, - snd t)) (projectCoordinates d a (translate t origin) offsets)
       = projectCoordinates d a origin offsets"
  by (auto simp: projectCoordinates_def dir_def perp_def translate_def cos_add sin_add)

text \<open>
  C9 (kernel modelled from the specification). For \<open>a \<noteq> b\<close> the angle of the segment from
  \<open>a\<close> to \<open>b\<close> lies in \<open>(-\<pi>, \<pi>]\<close>, differs from the angle of the reversed segment by
  \<open>\<pi>\<close> or \<open>-\<pi>\<close> (that is, by \<open>\<pi>\<close> modulo \<open>2\<pi>\<close>), does not change when both endpoints
  are translated by the same vector, and does not change when the segment is stretched
  or shrunk from its start by a positive factor.
\<close>

theorem angle_properties:
  assumes "a \<noteq> b"
  shows "- pi < angle (a, b) \<and> angle (a, b) \<le> pi
    \<and> (angle (a, b) - angle (b, a) = pi \<or> angle (a, b) - angle (b, a) = - pi)
    \<and> angle (translate t a, translate t b) = angle (a, b)
    \<and> (0 < k \<longrightarrow> angle (a, (fst a + k * (fst b - fst a), snd a + k * (snd b - snd a))) = angle (a, b))"
proof -
  let ?x = "fst b - fst a" and ?y = "snd b - snd a"
  have nz: "?x \<noteq> 0 \<or> ?y \<noteq> 0" using assms by (auto simp: prod_eq_iff)
  have r: "- pi < angle (a, b) \<and> angle (a, b) \<le> pi"
    by (simp add: angle_def atan2_range)
  have "angle (b, a) = atan2 (- ?y) (- ?x)" by (simp add: angle_def)
  then have rev: "angle (a, b) - angle (b, a) = pi \<or> angle (a, b) - angle (b, a) = - pi"
    using atan2_reverse [OF nz] by (simp add: angle_def)
  have tr: "angle (translate t a, translate t b) = angle (a, b)"
    by (simp add: angle_def translate_def)
  have sc: "0 < k \<longrightarrow> angle (a, (fst a + k * (fst b - fst a), snd a + k * (snd b - snd a))) = angle (a, b)"
    by (simp add: angle_def atan2_scale)
  show ?thesis using r rev tr sc by blast
qed

text \<open>An instance.\<close>

theorem angle_properties_witness:
  "(0, 0) \<noteq> ((0, 1) :: coord) \<and> angle ((0, 0), (0, 1)) = pi / 2 \<and> angle ((0, 1), (0, 0)) = - (pi / 2)
   \<and> angle ((0, 0), (0, 1)) - angle ((0, 1), (0, 0)) = pi
   \<and> angle (translate (3, 4) (0, 0), translate (3, 4) (0, 1)) = angle ((0, 0), (0, 1))
   \<and> angle ((0, 0), (0, 2)) = angle ((0, 0), (0, 1))"
  using angle_properties [of "(0, 0)" "(0, 1)" "(3, 4)" 2]
  by (simp add: angle_def atan2_def translate_def)

section \<open>Claims about the generators and the registry\<close>

text \<open>
  C1. On the base line from \<open>(0, 0)\<close> to \<open>(100, 0)\<close> with width 10 and resolution 1 the
  obstacle-boundary generator returns a dashed stroke of the outline of the line
  buffer at distance \<open>width / 2 = 5\<close> with the two disks of radius 5 around \<open>(0, 0)\<close> and
  \<open>(100, 0)\<close> subtracted, followed by a solid connector. The count is 2, and line 20
  computes three points on the first cross segment, \<open>(46, 20/3)\<close>, \<open>(46, 0)\<close> and
  \<open>(46, -20/3)\<close>, of which the first and the last have an even index. The connector
  that is returned has only two coordinates, \<open>(46, 20/3)\<close> and \<open>(54, 0)\<close>: the zip with
  the single odd-indexed point of the second cross segment drops \<open>(46, -20/3)\<close>. It is
  one segment, it ends on the base line and stays on one side of it, and it does not
  pass through the midpoint \<open>(50, 0)\<close>; the connector of two segments that C1 describes
  is not what the code returns.
\<close>

theorem ford_scenario_A:
  "G_M_BCD scenario_A =
     Inr [DashedStroke (Difference
            [Boundary (LineBuffer (Line [(0, 0), (100, 0)]) 5),
             PointBuffer (0, 0) 5,
             PointBuffer (100, 0) 5]),
          SolidStroke (Line [(46, 20 / 3), (54, 0)])]
   \<and> subdivisions (width scenario_A) (resolution scenario_A) = Count 2
   \<and> segmentize ((46, 20 / 3), (46, - (20 / 3))) (Count 2) = Inr [(46, 20 / 3), (46, 0), (46, - (20 / 3))]
   \<and> filter_index (\<lambda>i. i mod 2 = 0) 0 [(46, 20 / 3), (46, 0), (46, - (20 / 3)) :: coord]
       = [(46, 20 / 3), (46, - (20 / 3))]
   \<and> length [(46, 20 / 3), (54, 0) :: coord] = 2
   \<and> on_path [(46, 20 / 3), (54, 0)] (54, 0)
   \<and> \<not> on_path [(46, 20 / 3), (54, 0)] (50, 0)"
proof -
  have g: "G_M_BCD scenario_A =
     Inr [DashedStroke (Difference
            [Boundary (LineBuffer (Line [(0, 0), (100, 0)]) 5),
             PointBuffer (0, 0) 5,
             PointBuffer (100, 0) 5]),
          SolidStroke (Line [(46, 20 / 3), (54, 0)])]"
    by (simp add: G_M_BCD_def connector_scenario_A)
       (simp add: scenario_A_def startPoint_def endPoint_def)
  have n: "subdivisions (width scenario_A) (resolution scenario_A) = Count 2"
    by (simp add: scenario_A_def subdivisions_10_1)
  have sg: "segmentize ((46, 20 / 3), (46, - (20 / 3))) (Count 2)
      = Inr [(46, 20 / 3), (46, 0), (46, - (20 / 3))]"
    by (simp add: segmentize_def pointAlong_def upt_rec)
  have f: "filter_index (\<lambda>i. i mod 2 = 0) 0 [(46, 20 / 3), (46, 0), (46, - (20 / 3)) :: coord]
       = [(46, 20 / 3), (46, - (20 / 3))]"
    by simp
  have p: "on_path [(46, 20 / 3), (54, 0)] (54, 0)" "\<not> on_path [(46, 20 / 3), (54, 0)] (50, 0)"
    by (simp_all add: on_segment_def)
  show ?thesis using g n sg f p by simp
qed

text \<open>
  C2, as the code has it. On the segment from \<open>(0, 0)\<close> to \<open>(10, 0)\<close> with width 4 (and
  any resolution \<open>r\<close>) the task-boundary generator projects at distance \<open>width / 2 = 2\<close>:
  the points at \<open>x = 0\<close> are offset sideways by 1.5 to either side, those at \<open>x = 10\<close> by
  1.5 and by 2. The label is anchored at \<open>(5, 0)\<close> with rotation \<open>\<pi>\<close>.
\<close>

theorem clear_scenario_B:
  "G_T_X (scenario_B r) =
     Inr [DefaultStroke (Collect
            [Line [(0, 0), (10, 0)],
             Line [(0, 3 / 2), (10, 3 / 2)],
             Line [(0, - (3 / 2)), (10, - (3 / 2))],
             Line [(10, 2), (10, - 2)],
             OpenArrow r 0 (10, 3 / 2),
             OpenArrow r 0 (10, 0),
             OpenArrow r 0 (10, - (3 / 2))]),
          TextLabel (Point (5, 0)) \<lparr>text_of = ''C'', flip = True, rotation = pi\<rparr>]"
  by (rule clear_scenario_B_value)

text \<open>
  C2, as stated, puts tick marks at the sideways offset 3 at \<open>x = 0\<close> and \<open>x = 10\<close>. None
  of these four points is a vertex of anything the generator strokes.
\<close>

theorem clear_scenario_B_no_offset_3:
  "concat (map vertices (strokes (G_T_X (scenario_B 1)))) =
     [(0, 0), (10, 0), (0, 3 / 2), (10, 3 / 2), (0, - (3 / 2)), (10, - (3 / 2)), (10, 2), (10, - 2)]
   \<and> (0, 3) \<notin> set (concat (map vertices (strokes (G_T_X (scenario_B 1)))))
   \<and> (0, - 3) \<notin> set (concat (map vertices (strokes (G_T_X (scenario_B 1)))))
   \<and> (10, 3) \<notin> set (concat (map vertices (strokes (G_T_X (scenario_B 1)))))
   \<and> (10, - 3) \<notin> set (concat (map vertices (strokes (G_T_X (scenario_B 1)))))"
  by (simp add: clear_scenario_B_value strokes_def)

text \<open>
  C3, as the code has it. For a base line of at least two coordinates whose first and
  last coordinate differ, with \<open>c0\<close> its first and \<open>c1\<close> its second coordinate, \<open>ang\<close> the
  angle from the first to the last coordinate and \<open>d = width / 2\<close>, the task-boundary
  generator returns one stroke group and one label. The group holds the base line, the
  two lines from \<open>c0\<close> to \<open>c1\<close> shifted sideways by \<open>0.75 d\<close> to either side, the cross bar
  through \<open>c1\<close> from \<open>+d\<close> to \<open>-d\<close>, and open arrows at \<open>c1\<close> and at \<open>c1\<close> shifted by
  \<open>0.75 d\<close> to either side. The label \<open>C\<close> is flipped, anchored at the midpoint of the
  first and last coordinate and rotated by \<open>\<pi> - ang\<close>. When the first and the last
  coordinate are equal the generator fails with DegenerateGeometry.
\<close>

theorem clear_generator:
  "(2 \<le> length (lineString a) \<and> hd (lineString a) \<noteq> last (lineString a) \<longrightarrow>
      G_T_X a =
       (let ls = lineString a;
            c0 = ls ! 0;
            c1 = ls ! 1;
            ang = angle (hd ls, last ls);
            d = width a / 2
        in Inr [DefaultStroke (Collect
                  [Line ls,
                   Line [offset_from c0 ang 0 (0.75 * d), offset_from c1 ang 0 (0.75 * d)],
                   Line [offset_from c0 ang 0 (- 0.75 * d), offset_from c1 ang 0 (- 0.75 * d)],
                   Line [offset_from c1 ang 0 d, offset_from c1 ang 0 (- d)],
                   OpenArrow (resolution a) ang (offset_from c1 ang 0 (0.75 * d)),
                   OpenArrow (resolution a) ang c1,
                   OpenArrow (resolution a) ang (offset_from c1 ang 0 (- 0.75 * d))]),
                TextLabel (Point (midPoint (hd ls, last ls)))
                  \<lparr>text_of = ''C'', flip = True, rotation = pi - ang\<rparr>]))
   \<and> (hd (lineString a) = last (lineString a) \<longrightarrow> G_T_X a = Inl DegenerateGeometry)"
proof (intro conjI impI)
  assume h: "2 \<le> length (lineString a) \<and> hd (lineString a) \<noteq> last (lineString a)"
  then have ne: "lineString a \<noteq> []" by auto
  have s: "segment_of (lineString a) = Inr (hd (lineString a), last (lineString a))"
    using ne h by (simp add: segment_of_ends)
  show "G_T_X a =
       (let ls = lineString a;
            c0 = ls ! 0;
            c1 = ls ! 1;
            ang = angle (hd ls, last ls);
            d = width a / 2
        in Inr [DefaultStroke (Collect
                  [Line ls,
                   Line [offset_from c0 ang 0 (0.75 * d), offset_from c1 ang 0 (0.75 * d)],
                   Line [offset_from c0 ang 0 (- 0.75 * d), offset_from c1 ang 0 (- 0.75 * d)],
                   Line [offset_from c1 ang 0 d, offset_from c1 ang 0 (- d)],
                   OpenArrow (resolution a) ang (offset_from c1 ang 0 (0.75 * d)),
                   OpenArrow (resolution a) ang c1,
                   OpenArrow (resolution a) ang (offset_from c1 ang 0 (- 0.75 * d))]),
                TextLabel (Point (midPoint (hd ls, last ls)))
                  \<lparr>text_of = ''C'', flip = True, rotation = pi - ang\<rparr>])"
    by (simp add: G_T_X_def coordinates_def s projectCoordinates_offset_from Let_def)
next
  assume "hd (lineString a) = last (lineString a)"
  then show "G_T_X a = Inl DegenerateGeometry"
    by (simp add: G_T_X_def coordinates_def segment_of_closed)
qed

text \<open>A line of three coordinates, and a closed one.\<close>

theorem clear_generator_witness:
  "G_T_X \<lparr>lineString = [(0, 0), (3, 1), (10, 0)], width = 4, resolution = 1\<rparr> =
     Inr [DefaultStroke (Collect
            [Line [(0, 0), (3, 1), (10, 0)],
             Line [(0, 3 / 2), (3, 5 / 2)],
             Line [(0, - (3 / 2)), (3, - (1 / 2))],
             Line [(3, 3), (3, - 1)],
             OpenArrow 1 0 (3, 5 / 2),
             OpenArrow 1 0 (3, 1),
             OpenArrow 1 0 (3, - (1 / 2))]),
          TextLabel (Point (5, 0)) \<lparr>text_of = ''C'', flip = True, rotation = pi\<rparr>]
   \<and> G_T_X \<lparr>lineString = [(0, 0), (3, 1), (0, 0)], width = 4, resolution = 1\<rparr> = Inl DegenerateGeometry"
  using clear_generator [of "\<lparr>lineString = [(0, 0), (3, 1), (10, 0)], width = 4, resolution = 1\<rparr>"]
        clear_generator [of "\<lparr>lineString = [(0, 0), (3, 1), (0, 0)], width = 4, resolution = 1\<rparr>"]
  by (simp add: offset_from_def angle_def atan2_def midPoint_def Let_def)

text \<open>
  C3, as stated, draws perpendicular tick marks at both endpoints, at the factors
  0.75 and 1. On the segment from \<open>(0, 0)\<close> to \<open>(10, 0)\<close> with width 4 no stroke of two
  points is centred on the start point, and the points at factor 1 from the start,
  \<open>(0, 2)\<close> and \<open>(0, -2)\<close>, are not stroked.
\<close>

theorem clear_no_tick_at_start:
  "\<not> list_ex (tick_at (0, 0)) (strokes (G_T_X (scenario_B 1)))
   \<and> (0, 2) \<notin> set (concat (map vertices (strokes (G_T_X (scenario_B 1)))))
   \<and> (0, - 2) \<notin> set (concat (map vertices (strokes (G_T_X (scenario_B 1)))))"
  by (simp add: clear_scenario_B_value strokes_def midPoint_def)

text \<open>
  C4, as the code has it. Registration is an assignment and always succeeds: after a
  sequence of registrations an identifier is bound to the generator registered for it
  last, and identifiers that were not registered keep what the registry held. Sequences
  of registrations with pairwise distinct identifiers give the same registry in any
  order.
\<close>

theorem registration_last_wins:
  "(\<exists>m'. load (regs @ [(ident, g)]) m = Inr m' \<and> m' ident = Some g
         \<and> (\<forall>k. k \<notin> insert ident (fst ` set regs) \<longrightarrow> m' k = m k))
   \<and> (distinct (map fst regs) \<and> distinct (map fst regs') \<and> set regs = set regs'
        \<longrightarrow> load regs m = load regs' m)"
proof (intro conjI impI)
  have "\<forall>k. k \<notin> insert ident (fst ` set regs) \<longrightarrow> (m ++ map_of (rev (regs @ [(ident, g)]))) k = m k"
    by (auto simp: map_add_def map_of_eq_None_iff [THEN iffD2] split: option.splits)
  then show "\<exists>m'. load (regs @ [(ident, g)]) m = Inr m' \<and> m' ident = Some g
         \<and> (\<forall>k. k \<notin> insert ident (fst ` set regs) \<longrightarrow> m' k = m k)"
    unfolding load_value by simp
next
  assume h: "distinct (map fst regs) \<and> distinct (map fst regs') \<and> set regs = set regs'"
  then have "map_of (rev regs) = map_of (rev regs')"
    by (intro map_of_inject_set [THEN iffD2]) (simp_all add: rev_map [symmetric])
  then show "load regs m = load regs' m" by (simp add: load_value)
qed

text \<open>The two generators under one identifier, and under their own identifiers in both orders.\<close>

theorem registration_last_wins_witness:
  "(\<exists>m'. load ([(''G*M*BCD---'', G_M_BCD)] @ [(''G*M*BCD---'', G_T_X)]) Map.empty = Inr m'
         \<and> m' ''G*M*BCD---'' = Some G_T_X)
   \<and> load [(''G*M*BCD---'', G_M_BCD), (''G*T*X-----'', G_T_X)] Map.empty
       = load [(''G*T*X-----'', G_T_X), (''G*M*BCD---'', G_M_BCD)] Map.empty"
proof -
  have a: "\<exists>m'. load ([(''G*M*BCD---'', G_M_BCD)] @ [(''G*M*BCD---'', G_T_X)]) Map.empty = Inr m'
         \<and> m' ''G*M*BCD---'' = Some G_T_X"
    using registration_last_wins [where regs = "[(''G*M*BCD---'', G_M_BCD)]"
        and ident = "''G*M*BCD---''" and g = G_T_X and m = Map.empty]
    by blast
  have d: "distinct (map fst [(''G*M*BCD---'', G_M_BCD), (''G*T*X-----'', G_T_X)])
      \<and> distinct (map fst [(''G*T*X-----'', G_T_X), (''G*M*BCD---'', G_M_BCD)])
      \<and> set [(''G*M*BCD---'', G_M_BCD), (''G*T*X-----'', G_T_X)]
          = set [(''G*T*X-----'', G_T_X), (''G*M*BCD---'', G_M_BCD)]"
    by (simp add: insert_commute)
  have b: "load [(''G*M*BCD---'', G_M_BCD), (''G*T*X-----'', G_T_X)] Map.empty
       = load [(''G*T*X-----'', G_T_X), (''G*M*BCD---'', G_M_BCD)] Map.empty"
    using registration_last_wins [where regs = "[(''G*M*BCD---'', G_M_BCD), (''G*T*X-----'', G_T_X)]"
       and regs' = "[(''G*T*X-----'', G_T_X), (''G*M*BCD---'', G_M_BCD)]" and m = Map.empty] d
    by blast
  show ?thesis using a b by (intro conjI)
qed

text \<open>
  C4, as stated, makes a second registration of an identifier fail with
  ConflictingDefinition, whatever the order. It succeeds, and the order decides which
  generator the identifier ends up with.
\<close>

theorem duplicate_registration_overwrites:
  "register ''G*M*BCD---'' G_T_X [''G*M*BCD---'' \<mapsto> G_M_BCD] \<noteq> Inl ConflictingDefinition
   \<and> load [(''G*M*BCD---'', G_M_BCD), (''G*M*BCD---'', G_T_X)] Map.empty \<noteq> Inl ConflictingDefinition
   \<and> load [(''G*M*BCD---'', G_M_BCD), (''G*M*BCD---'', G_T_X)] Map.empty
       \<noteq> load [(''G*M*BCD---'', G_T_X), (''G*M*BCD---'', G_M_BCD)] Map.empty"
  using generators_differ by (auto simp: register_def dest: map_upd_eqD1)

text \<open>
  C6 (entry point modelled from the specification). For every registered identifier,
  \<^verbatim>\<open>synthesize\<close> with a width or a resolution that is zero or negative fails with
  InvalidParameter and returns no primitive sequence.
\<close>

theorem synthesize_rejects_nonpositive:
  assumes "reg ident = Some g" and "width a \<le> 0 \<or> resolution a \<le> 0"
  shows "synthesize reg ident a = Inl InvalidParameter"
  using assms by (simp add: synthesize_def)

text \<open>
  Both generators registered, the task-boundary one called with width 0 and the
  obstacle-boundary one with resolution 0.
\<close>

theorem synthesize_rejects_nonpositive_witness:
  "synthesize [''G*M*BCD---'' \<mapsto> G_M_BCD, ''G*T*X-----'' \<mapsto> G_T_X] ''G*T*X-----''
      \<lparr>lineString = [(0, 0), (10, 0)], width = 0, resolution = 1\<rparr> = Inl InvalidParameter
   \<and> synthesize [''G*M*BCD---'' \<mapsto> G_M_BCD, ''G*T*X-----'' \<mapsto> G_T_X] ''G*M*BCD---''
      \<lparr>lineString = [(0, 0), (100, 0)], width = 10, resolution = 0\<rparr> = Inl InvalidParameter"
  using synthesize_rejects_nonpositive
      [of "[''G*M*BCD---'' \<mapsto> G_M_BCD, ''G*T*X-----'' \<mapsto> G_T_X]" "''G*T*X-----''" G_T_X
          "\<lparr>lineString = [(0, 0), (10, 0)], width = 0, resolution = 1\<rparr>"]
    synthesize_rejects_nonpositive
      [of "[''G*M*BCD---'' \<mapsto> G_M_BCD, ''G*T*X-----'' \<mapsto> G_T_X]" "''G*M*BCD---''" G_M_BCD
          "\<lparr>lineString = [(0, 0), (100, 0)], width = 10, resolution = 0\<rparr>"]
  by simp

text \<open>
  C10, as the code has it. Let \<open>n\<close> be the count that line 18 computes,
  \<^verbatim>\<open>Math.floor(width / resolution / 5)\<close> in binary64, and let it be at least 1. On a base
  line whose first and last coordinate differ, the obstacle-boundary generator returns
  its dashed stroke followed by a solid stroke of a line of exactly
  \<open>2 \<cdot> ((n + 1) div 2)\<close> coordinates. Seen from the midpoint of the base line along its
  angle, the coordinates at even positions lie \<open>4 \<cdot> resolution\<close> behind the midpoint and
  those at odd positions \<open>4 \<cdot> resolution\<close> ahead of it: the former are the even-indexed
  subdivision points of the cross segment behind, the latter the odd-indexed ones of
  the cross segment ahead, both segments running from the sideways offset
  \<open>+width / 1.5\<close> to \<open>-width / 1.5\<close>. The zip stops at the shorter list, which drops the
  last even-indexed point when \<open>n\<close> is even.
\<close>

theorem ford_zigzag:
  assumes "lineString a \<noteq> []" and "hd (lineString a) \<noteq> last (lineString a)"
    and "subdivisions (width a) (resolution a) = Count k" and "1 \<le> k"
  shows "G_M_BCD a =
     (let ls = lineString a;
          ang = angle (hd ls, last ls);
          mid = midPoint (hd ls, last ls);
          d = width a / 1.5;
          r4 = resolution a * 4;
          n = nat k
      in Inr [DashedStroke (Difference
                [Boundary (LineBuffer (Line ls) (width a / 2)),
                 PointBuffer (hd ls) (width a / 2),
                 PointBuffer (last ls) (width a / 2)]),
              SolidStroke (Line (concat (map
                (\<lambda>j. [offset_from mid ang (- r4) ((1 - 2 * (real (2 * j) / real n)) * d),
                      offset_from mid ang r4 ((1 - 2 * (real (2 * j + 1) / real n)) * d)])
                [0 ..< (n + 1) div 2])))])
   \<and> (\<exists>dashed x. G_M_BCD a = Inr [dashed, SolidStroke (Line x)]
          \<and> length x = 2 * ((nat k + 1) div 2))"
  unfolding ford_value [OF assms] by (simp add: Let_def length_concat_pairs)

text \<open>
  Width 20 and resolution 1 on the line from \<open>(0, 0)\<close> to \<open>(100, 0)\<close>, where the count is
  4; and width 24 with the resolution \<^verbatim>\<open>1.6\<close>, where the count is 3 although the exact
  quotient of the two doubles, divided by 5, is below 3.
\<close>

theorem ford_zigzag_witness:
  "subdivisions 20 1 = Count 4
   \<and> G_M_BCD scenario_wide =
       Inr [DashedStroke (Difference
              [Boundary (LineBuffer (Line [(0, 0), (100, 0)]) 10),
               PointBuffer (0, 0) 10,
               PointBuffer (100, 0) 10]),
            SolidStroke (Line
              [offset_from (50, 0) 0 (- 4) (40 / 3), offset_from (50, 0) 0 4 (20 / 3),
               offset_from (50, 0) 0 (- 4) 0, offset_from (50, 0) 0 4 (- (20 / 3))])]
   \<and> subdivisions 24 double_1_6 = Count 3
   \<and> 24 / double_1_6 / 5 < 3
   \<and> (\<exists>dashed x. G_M_BCD \<lparr>lineString = [(0, 0), (100, 0)], width = 24, resolution = double_1_6\<rparr>
                    = Inr [dashed, SolidStroke (Line x)]
          \<and> length x = 4)"
proof -
  have a: "G_M_BCD scenario_wide =
       Inr [DashedStroke (Difference
              [Boundary (LineBuffer (Line [(0, 0), (100, 0)]) 10),
               PointBuffer (0, 0) 10,
               PointBuffer (100, 0) 10]),
            SolidStroke (Line
              [offset_from (50, 0) 0 (- 4) (40 / 3), offset_from (50, 0) 0 4 (20 / 3),
               offset_from (50, 0) 0 (- 4) 0, offset_from (50, 0) 0 4 (- (20 / 3))])]"
    using ford_zigzag [of scenario_wide 4] subdivisions_20_1
    by (simp add: scenario_wide_def angle_def atan2_def midPoint_def upt_rec Let_def)
  have b: "\<exists>dashed x. G_M_BCD \<lparr>lineString = [(0, 0), (100, 0)], width = 24, resolution = double_1_6\<rparr>
                    = Inr [dashed, SolidStroke (Line x)]
          \<and> length x = 4"
  proof -
    let ?a = "\<lparr>lineString = [(0, 0), (100, 0)], width = 24, resolution = double_1_6\<rparr>"
    have p1: "lineString ?a \<noteq> []" and p2: "hd (lineString ?a) \<noteq> last (lineString ?a)"
      and p3: "subdivisions (width ?a) (resolution ?a) = Count 3" and p4: "(1 :: int) \<le> 3"
      by (simp_all add: subdivisions_24_1_6)
    have "\<exists>dashed x. G_M_BCD ?a = Inr [dashed, SolidStroke (Line x)]
            \<and> length x = 2 * ((nat 3 + 1) div 2)"
      using ford_zigzag [OF p1 p2 p3 p4] by (rule conjunct2)
    then show ?thesis by simp
  qed
  have c: "24 / double_1_6 / 5 < 3" by (simp add: double_1_6_def)
  show ?thesis using a b c subdivisions_20_1 subdivisions_24_1_6 by simp
qed

text \<open>
  C10, as stated, takes the coordinates at even positions from a segment on the side
  \<open>+width / 1.5\<close> and those at odd positions from a segment on the side \<open>-width / 1.5\<close>.
  With width 20 and resolution 1 the second coordinate of the solid stroke is not on
  the segment at \<open>-40/3\<close>, and the third is not on the segment at \<open>+40/3\<close>.
\<close>

theorem ford_sides_counterexample:
  "G_M_BCD scenario_wide =
     Inr [DashedStroke (Difference
            [Boundary (LineBuffer (Line [(0, 0), (100, 0)]) 10),
             PointBuffer (0, 0) 10,
             PointBuffer (100, 0) 10]),
          SolidStroke (Line [(46, 40 / 3), (54, 20 / 3), (46, 0), (54, - (20 / 3))])]
   \<and> \<not> on_segment (46, - (40 / 3)) (54, - (40 / 3))
         ([(46, 40 / 3), (54, 20 / 3), (46, 0), (54, - (20 / 3))] ! 1)
   \<and> \<not> on_segment (46, 40 / 3) (54, 40 / 3)
         ([(46, 40 / 3), (54, 20 / 3), (46, 0), (54, - (20 / 3))] ! 2)"
proof -
  have "G_M_BCD scenario_wide =
     Inr [DashedStroke (Difference
            [Boundary (LineBuffer (Line [(0, 0), (100, 0)]) 10),
             PointBuffer (0, 0) 10,
             PointBuffer (100, 0) 10]),
          SolidStroke (Line [(46, 40 / 3), (54, 20 / 3), (46, 0), (54, - (20 / 3))])]"
    by (simp add: G_M_BCD_def connector_scenario_wide)
       (simp add: scenario_wide_def startPoint_def endPoint_def)
  then show ?thesis by (simp add: on_segment_def)
qed

end
